theory Spec2Isabelle
  imports Main "HOL-Library.Sublist"
begin

section \<open>Text primitives of the host language\<close>

text \<open>
  The log analyser (\<^verbatim>\<open>src/features.py\<close>) works on Python \<^verbatim>\<open>str\<close> values. They are
  modelled as \<^typ>\<open>string\<close>, one \<^typ>\<open>char\<close> per code point, which covers the code points
  U+0000 to U+00FF. The helpers below follow the behaviour of the built-in operations on that
  range: \<^verbatim>\<open>str.isspace\<close>, \<^verbatim>\<open>str.strip()\<close>, \<^verbatim>\<open>str.splitlines()\<close>, \<^verbatim>\<open>str.upper()\<close>,
  the substring test \<^verbatim>\<open>a in b\<close>, slicing \<^verbatim>\<open>s[i:]\<close> and \<^verbatim>\<open>sep.join(xs)\<close>.
\<close>

definition isspace :: "char \<Rightarrow> bool" where
  \<comment> \<open>\<^verbatim>\<open>str.isspace\<close> for one character, also the class \<^verbatim>\<open>\s\<close> of a \<^verbatim>\<open>str\<close> pattern:
      TAB, LF, VT, FF, CR, FS, GS, RS, US, SPACE, NEL and NBSP.\<close>
  "isspace c \<longleftrightarrow> c \<in> set [CHR 0x09, CHR 0x0A, CHR 0x0B, CHR 0x0C, CHR 0x0D,
      CHR 0x1C, CHR 0x1D, CHR 0x1E, CHR 0x1F, CHR 0x20, CHR 0x85, CHR 0xA0]"

definition isdigit :: "char \<Rightarrow> bool" where
  \<comment> \<open>the class \<^verbatim>\<open>\d\<close>: the decimal digits\<close>
  "isdigit c \<longleftrightarrow> c \<in> set ''0123456789''"

definition is_linebreak :: "char \<Rightarrow> bool" where
  \<comment> \<open>the line boundaries of \<^verbatim>\<open>str.splitlines\<close>: LF, VT, FF, CR, FS, GS, RS and NEL\<close>
  "is_linebreak c \<longleftrightarrow> c \<in> set [CHR 0x0A, CHR 0x0B, CHR 0x0C, CHR 0x0D,
      CHR 0x1C, CHR 0x1D, CHR 0x1E, CHR 0x85]"

definition strip :: "string \<Rightarrow> string" where
  \<comment> \<open>\<^verbatim>\<open>s.strip()\<close>: leading and trailing whitespace removed\<close>
  "strip s = rev (dropWhile isspace (rev (dropWhile isspace s)))"

fun splitlines_from :: "string \<Rightarrow> string \<Rightarrow> string list" where
  \<comment> \<open>\<^verbatim>\<open>cur\<close> is the line read so far; CR LF is one boundary; no empty last line\<close>
  "splitlines_from cur [] = (if cur = [] then [] else [cur])"
| "splitlines_from cur (c # cs) =
     (if c = CHR 0x0D then
        (case cs of
           d # ds \<Rightarrow> if d = CHR 0x0A then cur # splitlines_from [] ds
                     else cur # splitlines_from [] cs
         | [] \<Rightarrow> cur # splitlines_from [] cs)
      else if is_linebreak c then cur # splitlines_from [] cs
      else splitlines_from (cur @ [c]) cs)"

definition splitlines :: "string \<Rightarrow> string list" where
  "splitlines s = splitlines_from [] s"

definition upper_char :: "char \<Rightarrow> string" where
  \<comment> \<open>the upper-case mapping of one character: \<^verbatim>\<open>a\<close>-\<^verbatim>\<open>z\<close> and the accented letters
      U+00E0-U+00FE (U+00F7 apart) move down by 32, U+00DF becomes \<^verbatim>\<open>SS\<close>. The
      upper-case forms of U+00B5 and U+00FF lie above U+00FF; they stay as they are, which no
      comparison with an ASCII word can tell apart.\<close>
  "upper_char c =
     (let n = (of_char c :: int) in
      if 97 \<le> n \<and> n \<le> 122 then [char_of (n - 32)]
      else if 224 \<le> n \<and> n \<le> 254 \<and> n \<noteq> 247 then [char_of (n - 32)]
      else if n = 223 then ''SS''
      else [c])"

definition upper :: "string \<Rightarrow> string" where
  "upper s = concat (map upper_char s)"

fun str_in :: "string \<Rightarrow> string \<Rightarrow> bool" where
  \<comment> \<open>\<^verbatim>\<open>needle in hay\<close>: \<^verbatim>\<open>needle\<close> occurs as a contiguous substring\<close>
  "str_in needle [] = (needle = [])"
| "str_in needle (c # cs) = (prefix needle (c # cs) \<or> str_in needle cs)"

definition slice_from :: "string \<Rightarrow> int \<Rightarrow> string" where
  \<comment> \<open>\<^verbatim>\<open>s[i:]\<close>; a negative index counts from the end\<close>
  "slice_from s i = (if i < 0 then drop (nat (int (length s) + i)) s else drop (nat i) s)"

fun join :: "string \<Rightarrow> string list \<Rightarrow> string" where
  "join sep [] = []"
| "join sep [x] = x"
| "join sep (x # y # ys) = x @ sep @ join sep (y # ys)"

definition truthy :: "string option \<Rightarrow> bool" where
  \<comment> \<open>truth value of an optional string: \<^verbatim>\<open>None\<close> and \<^verbatim>\<open>""\<close> are false\<close>
  "truthy x = (case x of None \<Rightarrow> False | Some s \<Rightarrow> s \<noteq> [])"

section \<open>The log pattern\<close>

text \<open>
  \<^verbatim>\<open>log_pattern\<close> is
  \<^verbatim>\<open>^(?P<timestamp_str>\d{4}-\d{2}-\d{2} \d{2}:\d{2}:\d{2}(?:,\d{3})?)?\s*\<close>
  \<^verbatim>\<open>(?:\[?(?P<level>INFO|WARN|WARNING|ERROR|DEBUG|CRITICAL|FATAL)\]?)?\s*(?P<message>.*)\<close>.
  Every part is optional and the message group matches any text, so \<^verbatim>\<open>match\<close> always
  succeeds and returns the first choice of the engine: each greedy item takes what it can,
  and an alternation takes its first alternative that matches. A matcher below consumes a
  prefix of its input and returns the rest, \<open>None\<close> when it does not match.
\<close>

fun digits :: "nat \<Rightarrow> string \<Rightarrow> string option" where
  \<comment> \<open>\<^verbatim>\<open>\d{n}\<close>\<close>
  "digits 0 s = Some s"
| "digits (Suc n) [] = None"
| "digits (Suc n) (c # cs) = (if isdigit c then digits n cs else None)"

fun lit :: "char \<Rightarrow> string \<Rightarrow> string option" where
  \<comment> \<open>one literal character\<close>
  "lit a [] = None"
| "lit a (c # cs) = (if c = a then Some cs else None)"

definition optional :: "(string \<Rightarrow> string option) \<Rightarrow> string \<Rightarrow> string" where
  \<comment> \<open>a greedy \<^verbatim>\<open>(...)?\<close> whose continuation cannot fail\<close>
  "optional m s = (case m s of Some r \<Rightarrow> r | None \<Rightarrow> s)"

definition timestamp_re :: "string \<Rightarrow> string option" where
  \<comment> \<open>\<^verbatim>\<open>\d{4}-\d{2}-\d{2} \d{2}:\d{2}:\d{2}(?:,\d{3})?\<close>\<close>
  "timestamp_re s =
     Option.bind (digits 4 s) (\<lambda>s.
     Option.bind (lit CHR ''-'' s) (\<lambda>s.
     Option.bind (digits 2 s) (\<lambda>s.
     Option.bind (lit CHR ''-'' s) (\<lambda>s.
     Option.bind (digits 2 s) (\<lambda>s.
     Option.bind (lit CHR '' '' s) (\<lambda>s.
     Option.bind (digits 2 s) (\<lambda>s.
     Option.bind (lit CHR '':'' s) (\<lambda>s.
     Option.bind (digits 2 s) (\<lambda>s.
     Option.bind (lit CHR '':'' s) (\<lambda>s.
     Option.bind (digits 2 s) (\<lambda>s.
     Some (optional (\<lambda>s. Option.bind (lit CHR '','' s) (digits 3)) s))))))))))))"

definition level_names :: "string list" where
  \<comment> \<open>the alternation, in the order of the pattern\<close>
  "level_names = [''INFO'', ''WARN'', ''WARNING'', ''ERROR'', ''DEBUG'', ''CRITICAL'', ''FATAL'']"

fun alternation :: "string list \<Rightarrow> string \<Rightarrow> string option" where
  \<comment> \<open>the first alternative that is a prefix of the input\<close>
  "alternation [] s = None"
| "alternation (a # as) s = (if prefix a s then Some a else alternation as s)"

definition level_re :: "string \<Rightarrow> (string \<times> string \<times> string) option" where
  \<comment> \<open>\<^verbatim>\<open>\[?(?P<level>...)\]?\<close>: the level name, the input after the name (where the
      group ends) and the input after the optional closing bracket. With the bracket taken
      first; when no name follows it, the engine retries without the bracket.\<close>
  "level_re s =
     (let after_open = optional (lit CHR ''['') s in
      case alternation level_names after_open of
        Some l \<Rightarrow>
          (let after_level = drop (length l) after_open
           in Some (l, after_level, optional (lit CHR '']'') after_level))
      | None \<Rightarrow>
          (case alternation level_names s of
             Some l \<Rightarrow>
               (let after_level = drop (length l) s
                in Some (l, after_level, optional (lit CHR '']'') after_level))
           | None \<Rightarrow> None))"

record re_match =
  group_timestamp_str :: "string option"
  end_timestamp_str :: int
  group_level :: "string option"
  end_level :: int
  group_message :: string

definition log_pattern_match :: "string \<Rightarrow> re_match" where
  \<comment> \<open>\<^verbatim>\<open>log_pattern.match(line)\<close>; the end of a group that took no part is \<open>-1\<close>;
      \<^verbatim>\<open>.\<close> matches every character but LF\<close>
  "log_pattern_match line =
     (let n = length line;
          (ts, ts_end, s1) =
            (case timestamp_re line of
               Some r \<Rightarrow> (Some (take (n - length r) line), int (n - length r), r)
             | None \<Rightarrow> (None, -1, line));
          s2 = dropWhile isspace s1;
          (lv, lv_end, s3) =
            (case level_re s2 of
               Some (l, after_level, r) \<Rightarrow> (Some l, int (n - length after_level), r)
             | None \<Rightarrow> (None, -1, s2));
          s4 = dropWhile isspace s3
      in \<lparr> group_timestamp_str = ts, end_timestamp_str = ts_end,
           group_level = lv, end_level = lv_end,
           group_message = takeWhile (\<lambda>c. c \<noteq> CHR 0x0A) s4 \<rparr>)"

section \<open>Classifying one line\<close>

definition keyword_override :: "string \<Rightarrow> string \<Rightarrow> string" where
  \<comment> \<open>lines 67-70 of \<^verbatim>\<open>parse_log_data\<close>\<close>
  "keyword_override line level =
     (if str_in ''ERROR'' (upper line) \<and> level \<noteq> ''ERROR'' \<and> level \<noteq> ''CRITICAL''
         \<and> level \<noteq> ''FATAL'' then ''ERROR''
      else if (str_in ''WARN'' (upper line) \<or> str_in ''WARNING'' (upper line))
         \<and> level \<noteq> ''WARN'' \<and> level \<noteq> ''WARNING'' then ''WARN''
      else level)"

definition structured_match :: "string \<Rightarrow> string option \<times> string \<times> string" where
  \<comment> \<open>lines 43-62: the triple before the keyword override. \<^verbatim>\<open>match\<close> is never
      \<^verbatim>\<open>None\<close>, so the defaults of lines 45-47 survive only where the groups are absent.\<close>
  "structured_match line =
     (let m = log_pattern_match line;
          timestamp_str = group_timestamp_str m;
          level_group = group_level m;
          message = strip (group_message m);
          level = (case level_group of
                     Some l \<Rightarrow> if l \<noteq> [] then upper l else ''INFO''
                   | None \<Rightarrow> ''INFO'');
          message =
            (if message = [] \<and> truthy timestamp_str \<and> truthy level_group then
               (let message = strip (slice_from line (end_timestamp_str m))
                in if truthy level_group then strip (slice_from line (end_level m))
                   else message)
             else message)
      in (timestamp_str, level, message))"

definition classify_line :: "string \<Rightarrow> string option \<times> string \<times> string" where
  \<comment> \<open>the body of the loop for one stripped, non-empty line: lines 43-70\<close>
  "classify_line line =
     (case structured_match line of
        (timestamp_str, level, message) \<Rightarrow>
          (timestamp_str, keyword_override line level, message))"

section \<open>The event loop\<close>

record log_entry =
  timestamp_str :: "string option"
  level :: string
  message :: string
  raw_line :: string

definition parsed_entry_of :: "string \<Rightarrow> log_entry" where
  \<comment> \<open>lines 43-78: the dictionary \<^verbatim>\<open>parsed_entry\<close> of a line\<close>
  "parsed_entry_of line =
     (case classify_line line of (ts, lv, msg) \<Rightarrow>
        \<lparr> timestamp_str = ts, level = lv, message = msg, raw_line = line \<rparr>)"

definition elevated_levels :: "string list" where
  \<comment> \<open>the list of line 82\<close>
  "elevated_levels = [''ERROR'', ''WARN'', ''WARNING'', ''CRITICAL'', ''FATAL'']"

definition parse_line :: "int \<Rightarrow> string \<Rightarrow> log_entry list \<times> string list
    \<Rightarrow> log_entry list \<times> string list" where
  \<comment> \<open>one iteration of the loop of lines 38-84 on the state
      \<^verbatim>\<open>(parsed_entries, raw_error_warning_lines)\<close>\<close>
  "parse_line max_lines_for_llm l st =
     (case st of (parsed_entries, raw_error_warning_lines) \<Rightarrow>
        (let line = strip l in
         if line = [] then (parsed_entries, raw_error_warning_lines)
         else
           (let parsed_entry = parsed_entry_of line
            in (parsed_entries @ [parsed_entry],
                if level parsed_entry \<in> set elevated_levels then
                  (if int (length raw_error_warning_lines) < max_lines_for_llm
                   then raw_error_warning_lines @ [line]
                   else raw_error_warning_lines)
                else raw_error_warning_lines))))"

definition parse_lines :: "int \<Rightarrow> string list \<Rightarrow> log_entry list \<times> string list" where
  "parse_lines max_lines_for_llm log_lines = fold (parse_line max_lines_for_llm) log_lines ([], [])"

section \<open>Timestamp coercion\<close>

record datetime =
  year :: int
  month :: int
  day :: int
  hour :: int
  minute :: int
  second :: int
  microsecond :: int
  nanosecond :: int

record log_row = log_entry +
  timestamp :: "datetime option"

text \<open>
  \<^verbatim>\<open>pd.to_datetime(column, errors='coerce', format=f)\<close> parses each value of the column with
  the format \<^verbatim>\<open>f\<close>; a missing value and a value that does not parse give \<^verbatim>\<open>NaT\<close>
  (\<open>None\<close>). The parser of one value is the parameter \<open>strptime\<close>.
\<close>

definition to_datetime :: "(string \<Rightarrow> string \<Rightarrow> datetime option) \<Rightarrow> string option list
    \<Rightarrow> string \<Rightarrow> datetime option list" where
  "to_datetime strptime column format =
     map (\<lambda>v. case v of None \<Rightarrow> None | Some s \<Rightarrow> strptime format s) column"

definition fillna :: "'a option list \<Rightarrow> 'a option list \<Rightarrow> 'a option list" where
  "fillna column other = map2 (\<lambda>v w. case v of None \<Rightarrow> w | Some x \<Rightarrow> Some x) column other"

definition timestamp_column :: "(string \<Rightarrow> string \<Rightarrow> datetime option) \<Rightarrow> log_entry list
    \<Rightarrow> datetime option list" where
  \<comment> \<open>lines 89-98; a frame built from no entries has no column at all\<close>
  "timestamp_column strptime parsed_entries =
     (let column = map timestamp_str parsed_entries in
      if parsed_entries \<noteq> [] \<and> \<not> list_all (\<lambda>v. v = None) column then
        (let ts = to_datetime strptime column ''%Y-%m-%d %H:%M:%S,%f'' in
         if list_ex (\<lambda>v. v = None) ts
         then fillna ts (to_datetime strptime column ''%Y-%m-%d %H:%M:%S'')
         else ts)
      else replicate (length parsed_entries) None)"

definition add_column :: "log_entry \<Rightarrow> datetime option \<Rightarrow> log_row" where
  "add_column e t =
     \<lparr> timestamp_str = timestamp_str e, level = level e, message = message e,
       raw_line = raw_line e, timestamp = t \<rparr>"

record parsed_data =
  df_logs :: "log_row list"
  error_warning_raw_lines :: "string list"

definition parse_log_data :: "(string \<Rightarrow> string \<Rightarrow> datetime option) \<Rightarrow> string \<Rightarrow> int
    \<Rightarrow> parsed_data" where
  "parse_log_data strptime log_content max_lines_for_llm =
     (let log_lines = splitlines log_content in
      case parse_lines max_lines_for_llm log_lines of
        (parsed_entries, raw_error_warning_lines) \<Rightarrow>
          \<lparr> df_logs = map2 add_column parsed_entries (timestamp_column strptime parsed_entries),
            error_warning_raw_lines = raw_error_warning_lines \<rparr>)"

section \<open>The date parser of the data-frame library\<close>

text \<open>
  The parser that \<^verbatim>\<open>pd.to_datetime\<close> applies to one value is not part of the repository.
  \<open>pandas_strptime\<close> models it from the documentation of the \<^verbatim>\<open>strptime\<close> directives,
  for the directives of the two formats in use: \<^verbatim>\<open>%Y\<close> is four digits; \<^verbatim>\<open>%m\<close>,
  \<^verbatim>\<open>%d\<close>, \<^verbatim>\<open>%H\<close>, \<^verbatim>\<open>%M\<close> and \<^verbatim>\<open>%S\<close> are two digits or one, within their range;
  \<^verbatim>\<open>%f\<close> is one to nine digits, read as a fraction of a second; white space in the format
  matches one or more white-space characters; any other character matches itself; the whole
  value must match; the fields must form a date of the calendar and a time of the day. The
  range that the timestamp type of the library can hold is not modelled. The pipeline
  passes only values that the log pattern has captured: fields of four and of two digits
  between the literal separators, with or without three digits after a comma.
\<close>

datatype directive = Literal char | Spaces | Year4 | Month | Day | Hour | Minute | Second | Fraction

fun directive_of :: "char \<Rightarrow> directive option" where
  "directive_of c =
     (if c = CHR ''Y'' then Some Year4 else if c = CHR ''m'' then Some Month
      else if c = CHR ''d'' then Some Day else if c = CHR ''H'' then Some Hour
      else if c = CHR ''M'' then Some Minute else if c = CHR ''S'' then Some Second
      else if c = CHR ''f'' then Some Fraction else None)"

function compile_format :: "string \<Rightarrow> directive list option" where
  "compile_format [] = Some []"
| "compile_format (c # cs) =
     (if c = CHR ''%'' then
        (case cs of
           [] \<Rightarrow> None
         | d # ds \<Rightarrow>
             (case directive_of d of
                None \<Rightarrow> None
              | Some x \<Rightarrow> map_option ((#) x) (compile_format ds)))
      else if isspace c then map_option ((#) Spaces) (compile_format (dropWhile isspace cs))
      else map_option ((#) (Literal c)) (compile_format cs))"
  by pat_completeness auto
termination
  by (relation "measure length") (auto simp: le_imp_less_Suc length_dropWhile_le)

definition digit_value :: "char \<Rightarrow> int" where
  "digit_value c = of_char c - 48"

fun number :: "string \<Rightarrow> int" where
  \<comment> \<open>the value of a string of digits\<close>
  "number s = foldl (\<lambda>n c. 10 * n + digit_value c) 0 s"

definition field2 :: "int \<Rightarrow> int \<Rightarrow> int \<Rightarrow> string \<Rightarrow> (int \<times> string) list" where
  \<comment> \<open>a field of two digits with a value from \<open>lo2\<close> to \<open>hi\<close>, or else of one digit with a
      value from \<open>lo1\<close>: the choices in the order the parser tries them\<close>
  "field2 lo2 lo1 hi s =
     (if 2 \<le> length s \<and> list_all isdigit (take 2 s) \<and> lo2 \<le> number (take 2 s)
         \<and> number (take 2 s) \<le> hi then [(number (take 2 s), drop 2 s)] else []) @
     (if 1 \<le> length s \<and> isdigit (hd s) \<and> lo1 \<le> digit_value (hd s)
      then [(digit_value (hd s), tl s)] else [])"

definition match_directive :: "directive \<Rightarrow> string \<Rightarrow> (int \<times> string) list" where
  "match_directive d s =
     (case d of
        Literal c \<Rightarrow> (case lit c s of Some r \<Rightarrow> [(0, r)] | None \<Rightarrow> [])
      | Spaces \<Rightarrow>
          map (\<lambda>k. (0, drop k s)) (rev [1 ..< Suc (length (takeWhile isspace s))])
      | Year4 \<Rightarrow> (case digits 4 s of Some r \<Rightarrow> [(number (take 4 s), r)] | None \<Rightarrow> [])
      | Month \<Rightarrow> field2 1 1 12 s
      | Day \<Rightarrow> field2 1 1 31 s @
          (case lit CHR '' '' s of
             Some r \<Rightarrow> if r \<noteq> [] \<and> isdigit (hd r) \<and> 1 \<le> digit_value (hd r)
                       then [(digit_value (hd r), tl r)] else []
           | None \<Rightarrow> [])
      | Hour \<Rightarrow> field2 0 0 23 s
      | Minute \<Rightarrow> field2 0 0 59 s
      | Second \<Rightarrow> field2 0 0 61 s
      | Fraction \<Rightarrow>
          map (\<lambda>k. (number (take k s) * 10 ^ (9 - k), drop k s))
            (rev [1 ..< Suc (min 9 (length (takeWhile isdigit s)))]))"

fun match_format :: "directive list \<Rightarrow> string \<Rightarrow> (directive \<times> int) list list" where
  \<comment> \<open>every way the whole value matches the format, first choice first\<close>
  "match_format [] s = (if s = [] then [[]] else [])"
| "match_format (d # ds) s =
     concat (map (\<lambda>(v, r). map ((#) (d, v)) (match_format ds r)) (match_directive d s))"

definition days_in_month :: "int \<Rightarrow> int \<Rightarrow> int" where
  "days_in_month y m =
     (if m \<in> set [1, 3, 5, 7, 8, 10, 12] then 31
      else if m = 2 then (if (y mod 4 = 0 \<and> y mod 100 \<noteq> 0) \<or> y mod 400 = 0 then 29 else 28)
      else 30)"

definition field :: "(directive \<times> int) list \<Rightarrow> directive \<Rightarrow> int \<Rightarrow> int" where
  "field fs d dflt = (case map_of fs d of Some v \<Rightarrow> v | None \<Rightarrow> dflt)"

definition pandas_strptime :: "string \<Rightarrow> string \<Rightarrow> datetime option" where
  "pandas_strptime format s =
     (case compile_format format of
        None \<Rightarrow> None
      | Some ds \<Rightarrow>
          (case match_format ds s of
             [] \<Rightarrow> None
           | fs # _ \<Rightarrow>
               (let y = field fs Year4 1900; m = field fs Month 1; d = field fs Day 1;
                    ns = field fs Fraction 0
                in if 1 \<le> y \<and> d \<le> days_in_month y m \<and> field fs Second 0 \<le> 59
                   then Some \<lparr> year = y, month = m, day = d, hour = field fs Hour 0,
                          minute = field fs Minute 0, second = field fs Second 0,
                          microsecond = ns div 1000, nanosecond = ns mod 1000 \<rparr>
                   else None)))"

section \<open>The pipeline around the parser\<close>

text \<open>
  \<^verbatim>\<open>process_logs_and_summarize\<close> reads the uploaded file, parses it and hands the elevated
  lines to the summarizer. What the function cannot compute from its arguments is a
  parameter: the date parser; the summarizer \<^verbatim>\<open>generate_log_summary\<close> of
  \<^verbatim>\<open>src/ai_logic.py\<close>, whose answer depends on the API key of the environment and on the
  remote model (it returns a text, \<open>Inr\<close>, or raises, \<open>Inl\<close> with the text of the
  exception); the base-64 encoding of the UTF-8 bytes of a text; the Markdown renderer. The
  HTML page of lines 158-180, a fixed template around the file name and the rendered
  summary, is a parameter as well. Reading and decoding the file gives the text, a
  \<^verbatim>\<open>UnicodeDecodeError\<close> or another exception. The second component of the result lists
  the texts passed to the summarizer, one per call, so that a path without a call returns
  the empty list.
\<close>

datatype file_read = Decoded string | UnicodeDecodeError | ReadError string

record uploaded_file =
  name :: string
  read_decode :: file_read

record collaborators =
  strptime :: "string \<Rightarrow> string \<Rightarrow> datetime option"
  generate_log_summary :: "string \<Rightarrow> string + string"
  b64encode :: "string \<Rightarrow> string"
  markdown :: "string \<Rightarrow> string"
  html_page :: "string \<Rightarrow> string \<Rightarrow> string"

record summary_result =
  summary_text :: string
  download_link :: "string option"
  success :: bool
  error_message :: "string option"
  df :: "log_row list option"

function replace :: "string \<Rightarrow> string \<Rightarrow> string \<Rightarrow> string" where
  \<comment> \<open>\<^verbatim>\<open>s.replace(old, new)\<close> for a non-empty \<^verbatim>\<open>old\<close>\<close>
  "replace old new [] = []"
| "replace old new (c # cs) =
     (if old \<noteq> [] \<and> prefix old (c # cs)
      then new @ replace old new (drop (length old) (c # cs))
      else c # replace old new cs)"
  by pat_completeness auto
termination
  by (relation "measure (\<lambda>(old, new, s). length s)") auto

definition no_findings :: string where
  "no_findings = ''No significant errors or warnings found in the provided log file.''"

definition process_logs_and_summarize :: "collaborators \<Rightarrow> uploaded_file option \<Rightarrow> string
    \<Rightarrow> summary_result \<times> string list" where
  "process_logs_and_summarize ext uploaded output_format =
     (case uploaded of
        None \<Rightarrow>
          (\<lparr> summary_text = [], download_link = None, success = False,
             error_message = Some ''Please upload a log file to get started.'', df = None \<rparr>, [])
      | Some file \<Rightarrow>
          (case read_decode file of
             UnicodeDecodeError \<Rightarrow>
               (\<lparr> summary_text = [], download_link = None, success = False,
                  error_message = Some (''Failed to read log file: UnicodeDecodeError. ''
                    @ ''Try a different encoding (e.g., '' @ [CHR 0x27] @ ''latin-1'' @ [CHR 0x27]
                    @ '') or ensure it'' @ [CHR 0x27] @ ''s a plain text file.''),
                  df = None \<rparr>, [])
           | ReadError e \<Rightarrow>
               (\<lparr> summary_text = [], download_link = None, success = False,
                  error_message =
                    Some (''An unexpected error occurred during log processing: '' @ e),
                  df = None \<rparr>, [])
           | Decoded log_content \<Rightarrow>
               (let parsed = parse_log_data (strptime ext) log_content 200;
                    frame = df_logs parsed;
                    logs_for_llm = join [CHR 0x0A] (error_warning_raw_lines parsed)
                in if logs_for_llm = [] \<and> error_warning_raw_lines parsed = [] then
                     (\<lparr> summary_text = no_findings, download_link = None, success = True,
                        error_message = None, df = Some frame \<rparr>, [])
                   else
                     (case generate_log_summary ext logs_for_llm of
                        Inl e \<Rightarrow>
                          (\<lparr> summary_text = [], download_link = None, success = False,
                             error_message =
                               Some (''An unexpected error occurred during log processing: '' @ e),
                             df = Some frame \<rparr>, [logs_for_llm])
                      | Inr summary \<Rightarrow>
                          if summary = [] \<or> prefix ''ERROR:'' summary then
                            (\<lparr> summary_text = [], download_link = None, success = False,
                               error_message = Some summary, df = Some frame \<rparr>, [logs_for_llm])
                          else
                            (let download_filename_prefix =
                                   replace ''.txt'' [] (replace ''.log'' [] (name file))
                             in if output_format = ''markdown'' then
                                  (\<lparr> summary_text = summary,
                                     download_link = Some (''data:text/markdown;base64,''
                                       @ b64encode ext summary),
                                     success = True, error_message = None, df = Some frame \<rparr>,
                                   [logs_for_llm])
                                else if output_format = ''html'' then
                                  (let html_summary = markdown ext summary;
                                       html_content =
                                         html_page ext download_filename_prefix html_summary
                                   in (\<lparr> summary_text = summary,
                                         download_link = Some (''data:text/html;base64,''
                                           @ b64encode ext html_content),
                                         success = True, error_message = None,
                                         df = Some frame \<rparr>, [logs_for_llm]))
                                else
                                  (\<lparr> summary_text = summary, download_link = None,
                                     success = False,
                                     error_message = Some (''Unsupported output format. Only ''
                                       @ ''Markdown and HTML are supported for download.''),
                                     df = Some frame \<rparr>, [logs_for_llm]))))))"

section \<open>Severity names\<close>

definition severity_order :: "string list" where
  \<comment> \<open>\<^verbatim>\<open>severity_order\<close> of \<^verbatim>\<open>src/main.py\<close>, line 73: the seven level names of the display\<close>
  "severity_order = [''CRITICAL'', ''FATAL'', ''ERROR'', ''WARN'', ''WARNING'', ''INFO'', ''DEBUG'']"

definition structured_levels :: "string list" where
  \<comment> \<open>the names the pattern can return as the level group\<close>
  "structured_levels = [''INFO'', ''WARN'', ''ERROR'', ''DEBUG'', ''CRITICAL'', ''FATAL'']"

section \<open>Levels that the classifier can produce\<close>

lemma prefix_WARNING_WARN: "prefix ''WARNING'' s \<Longrightarrow> prefix ''WARN'' s"
proof -
  assume "prefix ''WARNING'' s"
  moreover have "prefix ''WARN'' ''WARNING''" by simp
  ultimately show ?thesis by (rule prefix_order.trans[rotated])
qed

lemma alternation_mem: "alternation xs s = Some l \<Longrightarrow> l \<in> set xs"
  by (induction xs) (auto split: if_splits)

lemma alternation_prefix: "alternation xs s = Some l \<Longrightarrow> prefix l s"
  by (induction xs) (auto split: if_splits)

lemma alternation_first:
  "alternation (xs @ a # ys) s = Some l \<Longrightarrow> prefix a s \<Longrightarrow> l \<in> set (xs @ [a])"
  by (induction xs) (auto split: if_splits)

lemma alternation_level_names:
  assumes "alternation level_names s = Some l"
  shows "l \<in> set structured_levels"
proof -
  have mem: "l \<in> set level_names" using assms by (rule alternation_mem)
  have "l \<noteq> ''WARNING''"
  proof
    assume w: "l = ''WARNING''"
    then have "prefix ''WARN'' s"
      using alternation_prefix[OF assms] prefix_WARNING_WARN by simp
    moreover have "level_names = [''INFO''] @ ''WARN'' # [''WARNING'', ''ERROR'', ''DEBUG'', ''CRITICAL'', ''FATAL'']"
      by (simp add: level_names_def)
    ultimately have "l \<in> set ([''INFO''] @ [''WARN''])"
      using assms alternation_first by metis
    with w show False by simp
  qed
  with mem show ?thesis by (auto simp: level_names_def structured_levels_def)
qed


lemma level_re_level:
  assumes "level_re s = Some (l, a, r)"
  shows "l \<in> set structured_levels"
proof (cases "alternation level_names (optional (lit CHR ''['') s)")
  case (Some l')
  with assms have "l = l'" by (simp add: level_re_def Let_def)
  with Some show ?thesis by (simp add: alternation_level_names)
next
  case None
  note n = None
  show ?thesis
  proof (cases "alternation level_names s")
    case None
    with n assms show ?thesis by (simp add: level_re_def Let_def)
  next
    case (Some l')
    with n assms have "l = l'" by (simp add: level_re_def Let_def)
    with Some show ?thesis by (simp add: alternation_level_names)
  qed
qed

lemma group_level_cases:
  assumes "group_level (log_pattern_match line) = Some l"
  shows "l \<in> set structured_levels"
proof -
  define s1 where "s1 = (case timestamp_re line of Some r \<Rightarrow> r | None \<Rightarrow> line)"
  have g: "group_level (log_pattern_match line) =
      (case level_re (dropWhile isspace s1) of Some (l, a, r) \<Rightarrow> Some l | None \<Rightarrow> None)"
    by (simp add: log_pattern_match_def Let_def s1_def split: option.splits prod.splits)
  with assms obtain a r where "level_re (dropWhile isspace s1) = Some (l, a, r)"
    by (auto split: option.splits)
  then show ?thesis by (rule level_re_level)
qed

lemma upper_structured: "l \<in> set structured_levels \<Longrightarrow> upper l = l"
  by (auto simp: structured_levels_def upper_def upper_char_def Let_def)

lemma structured_match_level:
  "fst (snd (structured_match line)) \<in> set structured_levels"
proof (cases "group_level (log_pattern_match line)")
  case None
  then show ?thesis by (simp add: structured_match_def Let_def truthy_def structured_levels_def)
next
  case (Some l)
  then have l: "l \<in> set structured_levels" by (rule group_level_cases)
  then have "l \<noteq> []" by (auto simp: structured_levels_def)
  with Some l show ?thesis
    by (simp add: structured_match_def Let_def truthy_def upper_structured)
qed

lemma keyword_override_cases:
  "keyword_override line lv = ''ERROR'' \<or> keyword_override line lv = ''WARN''
     \<or> keyword_override line lv = lv"
  by (simp add: keyword_override_def)

lemma classify_line_level:
  "fst (snd (classify_line line)) = keyword_override line (fst (snd (structured_match line)))"
  by (simp add: classify_line_def split: prod.splits)

section \<open>The loop as a map over the non-blank lines\<close>

lemma str_in_sublist: "str_in n h \<longleftrightarrow> sublist n h"
  by (induction h) (auto simp: sublist_Cons_right)

lemma upper_append: "upper (xs @ ys) = upper xs @ upper ys"
  by (simp add: upper_def)

lemma str_in_upper:
  assumes "str_in n h" shows "str_in (upper n) (upper h)"
proof -
  from assms obtain ps ss where "h = ps @ n @ ss" by (auto simp: str_in_sublist sublist_def)
  then have "upper h = upper ps @ upper n @ upper ss" by (simp add: upper_append)
  then show ?thesis unfolding str_in_sublist sublist_def by blast
qed

lemma upper_error: "upper ''error'' = ''ERROR''"
  by code_simp

lemma raw_line_parsed_entry_of: "raw_line (parsed_entry_of line) = line"
  by (simp add: parsed_entry_of_def split: prod.splits)

lemma level_parsed_entry_of: "level (parsed_entry_of line) = fst (snd (classify_line line))"
  by (simp add: parsed_entry_of_def split: prod.splits)

lemma timestamp_str_parsed_entry_of:
  "timestamp_str (parsed_entry_of line) = fst (classify_line line)"
  by (simp add: parsed_entry_of_def split: prod.splits)

lemma fold_parse_line_fst:
  "fst (fold (parse_line N) ls (pe, rl)) =
     pe @ map parsed_entry_of (filter (\<lambda>l. l \<noteq> []) (map strip ls))"
  by (induction ls arbitrary: pe rl) (simp_all add: parse_line_def Let_def)

lemma cap_step:
  assumes "rl = take (nat N) xs"
  shows "(if int (length rl) < N then rl @ [x] else rl) = take (nat N) (xs @ [x])"
proof (cases "length xs < nat N")
  case True
  with assms have "rl = xs" by simp
  with True show ?thesis by simp
next
  case False
  with assms have "length rl = nat N" by simp
  with False assms show ?thesis by simp
qed

lemma fold_parse_line_snd:
  assumes "rl = take (nat N) (map raw_line (filter (\<lambda>e. level e \<in> set elevated_levels) pe))"
  shows "snd (fold (parse_line N) ls (pe, rl)) =
     take (nat N) (map raw_line (filter (\<lambda>e. level e \<in> set elevated_levels)
       (fst (fold (parse_line N) ls (pe, rl)))))"
  using assms
proof (induction ls arbitrary: pe rl)
  case Nil
  then show ?case by simp
next
  case (Cons l ls)
  show ?case
  proof (cases "strip l = []")
    case True
    then have "parse_line N l (pe, rl) = (pe, rl)" by (simp add: parse_line_def)
    with Cons show ?thesis by simp
  next
    case False
    define e where "e = parsed_entry_of (strip l)"
    define rl' where "rl' = (if level e \<in> set elevated_levels
       then (if int (length rl) < N then rl @ [strip l] else rl) else rl)"
    have step: "parse_line N l (pe, rl) = (pe @ [e], rl')"
      using False by (simp add: parse_line_def Let_def e_def rl'_def)
    have "rl' = take (nat N) (map raw_line (filter (\<lambda>e. level e \<in> set elevated_levels) (pe @ [e])))"
    proof (cases "level e \<in> set elevated_levels")
      case True
      have "raw_line e = strip l" by (simp add: e_def raw_line_parsed_entry_of)
      with True cap_step[OF Cons.prems, of "strip l"] show ?thesis by (simp add: rl'_def)
    next
      case False
      with Cons.prems show ?thesis by (simp add: rl'_def)
    qed
    from Cons.IH[OF this] step show ?thesis by simp
  qed
qed

lemma parse_lines_entries:
  "fst (parse_lines N ls) = map parsed_entry_of (filter (\<lambda>l. l \<noteq> []) (map strip ls))"
  by (simp add: parse_lines_def fold_parse_line_fst)

lemma parse_lines_raw:
  "snd (parse_lines N ls) =
     take (nat N) (map raw_line (filter (\<lambda>e. level e \<in> set elevated_levels) (fst (parse_lines N ls))))"
  unfolding parse_lines_def by (rule fold_parse_line_snd) simp

section \<open>The timestamp column, value by value\<close>

lemma map2_maps: "map2 f (map g xs) (map h xs) = map (\<lambda>x. f (g x) (h x)) xs"
  by (induction xs) simp_all

lemma map2_map_right: "map2 f xs (map h xs) = map (\<lambda>x. f x (h x)) xs"
  by (induction xs) simp_all

lemma timestamp_column_eq:
  "timestamp_column p es =
     map (\<lambda>e. case timestamp_str e of
                 None \<Rightarrow> None
               | Some s \<Rightarrow> (case p ''%Y-%m-%d %H:%M:%S,%f'' s of
                             Some t \<Rightarrow> Some t
                           | None \<Rightarrow> p ''%Y-%m-%d %H:%M:%S'' s)) es"
proof (cases "es \<noteq> [] \<and> \<not> list_all (\<lambda>v. v = None) (map timestamp_str es)")
  case False
  then have all: "\<forall>e\<in>set es. timestamp_str e = None"
    by (cases es) (auto simp: list_all_iff)
  have "timestamp_column p es = replicate (length es) None"
    unfolding timestamp_column_def Let_def by (rule if_not_P) (rule False)
  also have "\<dots> = map (\<lambda>e. None) es" by (simp add: map_replicate_const)
  also from all have "\<dots> = map (\<lambda>e. case timestamp_str e of
                 None \<Rightarrow> None
               | Some s \<Rightarrow> (case p ''%Y-%m-%d %H:%M:%S,%f'' s of
                             Some t \<Rightarrow> Some t
                           | None \<Rightarrow> p ''%Y-%m-%d %H:%M:%S'' s)) es"
    by (intro map_cong) simp_all
  finally show ?thesis .
next
  case True
  define ts where "ts = to_datetime p (map timestamp_str es) ''%Y-%m-%d %H:%M:%S,%f''"
  have tc: "timestamp_column p es =
      (if list_ex (\<lambda>v. v = None) ts
       then fillna ts (to_datetime p (map timestamp_str es) ''%Y-%m-%d %H:%M:%S'') else ts)"
    unfolding timestamp_column_def Let_def ts_def by (rule if_P) (rule True)
  show ?thesis
  proof (cases "list_ex (\<lambda>v. v = None) ts")
    case True
    with tc show ?thesis
      by (simp add: ts_def fillna_def to_datetime_def map2_maps map_map comp_def
          split: option.splits cong: map_cong)
  next
    case False
    then have nn: "None \<notin> set ts" by (simp add: list_ex_iff)
    have ne: "(case timestamp_str e of None \<Rightarrow> None
        | Some s \<Rightarrow> p ''%Y-%m-%d %H:%M:%S,%f'' s) \<noteq> None" if "e \<in> set es" for e
    proof -
      from that have "(case timestamp_str e of None \<Rightarrow> None
        | Some s \<Rightarrow> p ''%Y-%m-%d %H:%M:%S,%f'' s) \<in> set ts"
        unfolding ts_def to_datetime_def by (simp add: image_iff) blast
      with nn show ?thesis by metis
    qed
    have "ts = map (\<lambda>e. case timestamp_str e of
                 None \<Rightarrow> None
               | Some s \<Rightarrow> (case p ''%Y-%m-%d %H:%M:%S,%f'' s of
                             Some t \<Rightarrow> Some t
                           | None \<Rightarrow> p ''%Y-%m-%d %H:%M:%S'' s)) es"
      unfolding ts_def to_datetime_def map_map comp_def
    proof (intro map_cong refl)
      fix e assume "e \<in> set es"
      from ne[OF this] show "(case timestamp_str e of None \<Rightarrow> None
          | Some s \<Rightarrow> p ''%Y-%m-%d %H:%M:%S,%f'' s) =
        (case timestamp_str e of None \<Rightarrow> None
          | Some s \<Rightarrow> (case p ''%Y-%m-%d %H:%M:%S,%f'' s of
                             Some t \<Rightarrow> Some t
                           | None \<Rightarrow> p ''%Y-%m-%d %H:%M:%S'' s))"
        by (cases "timestamp_str e") (auto split: option.splits)
    qed
    with tc False show ?thesis by simp
  qed
qed

section \<open>The data frame and the elevated lines\<close>

lemma df_logs_eq:
  "df_logs (parse_log_data p text N) =
     map (\<lambda>e. add_column e
            (case timestamp_str e of
               None \<Rightarrow> None
             | Some s \<Rightarrow> (case p ''%Y-%m-%d %H:%M:%S,%f'' s of
                           Some t \<Rightarrow> Some t
                         | None \<Rightarrow> p ''%Y-%m-%d %H:%M:%S'' s)))
       (map parsed_entry_of (filter (\<lambda>l. l \<noteq> []) (map strip (splitlines text))))"
proof -
  obtain es rl where pl: "parse_lines N (splitlines text) = (es, rl)"
    by (cases "parse_lines N (splitlines text)")
  then have "es = fst (parse_lines N (splitlines text))" by simp
  then have es: "es = map parsed_entry_of (filter (\<lambda>l. l \<noteq> []) (map strip (splitlines text)))"
    by (simp only: parse_lines_entries)
  from pl have "df_logs (parse_log_data p text N) = map2 add_column es (timestamp_column p es)"
    by (simp add: parse_log_data_def Let_def)
  then show ?thesis
    unfolding timestamp_column_eq map2_map_right es .
qed

lemma raw_lines_eq:
  "error_warning_raw_lines (parse_log_data p text N) = snd (parse_lines N (splitlines text))"
  by (simp add: parse_log_data_def Let_def split: prod.splits)

lemma add_column_sel [simp]:
  "raw_line (add_column e t) = raw_line e"
  "level (add_column e t) = level e"
  "timestamp_str (add_column e t) = timestamp_str e"
  "message (add_column e t) = message e"
  "timestamp (add_column e t) = t"
  by (simp_all add: add_column_def)

lemma df_logs_raw_line:
  "map raw_line (df_logs (parse_log_data p text N)) =
     filter (\<lambda>l. l \<noteq> []) (map strip (splitlines text))"
  by (simp add: df_logs_eq comp_def raw_line_parsed_entry_of)

lemma df_logs_level:
  "map level (df_logs (parse_log_data p text N)) =
     map (\<lambda>l. fst (snd (classify_line l))) (filter (\<lambda>l. l \<noteq> []) (map strip (splitlines text)))"
  by (simp add: df_logs_eq comp_def level_parsed_entry_of)

lemma filter_map_add_column:
  "map raw_line (filter (\<lambda>r. level r \<in> A) (map (\<lambda>e. add_column e (f e)) es)) =
     map raw_line (filter (\<lambda>e. level e \<in> A) es)"
  by (induction es) simp_all

lemma elevated_eq:
  "error_warning_raw_lines (parse_log_data p text N) =
     take (nat N) (map raw_line
       (filter (\<lambda>r. level r \<in> set elevated_levels) (df_logs (parse_log_data p text N))))"
  unfolding raw_lines_eq df_logs_eq filter_map_add_column
  by (subst parse_lines_raw) (simp only: parse_lines_entries)

lemma elevated_cap_250_200:
  assumes "length (filter (\<lambda>r. level r \<in> set elevated_levels)
             (df_logs (parse_log_data p text 200))) = 250"
  shows "length (error_warning_raw_lines (parse_log_data p text 200)) = 200"
  using assms elevated_eq[of p "text" 200] by simp

section \<open>Lines without a timestamp or level token\<close>

lemma classify_line_levels: "fst (snd (classify_line line)) \<in> set structured_levels"
proof -
  have "''ERROR'' \<in> set structured_levels" "''WARN'' \<in> set structured_levels"
    by (simp_all add: structured_levels_def)
  with keyword_override_cases[of line "fst (snd (structured_match line))"]
    structured_match_level[of line]
  show ?thesis unfolding classify_line_level by metis
qed

lemma structured_levels_severity: "l \<in> set structured_levels \<Longrightarrow> l \<in> set severity_order \<and> l \<noteq> []"
  by (auto simp: structured_levels_def severity_order_def)

lemma structured_levels_not_WARNING: "l \<in> set structured_levels \<Longrightarrow> l \<noteq> ''WARNING''"
  by (auto simp: structured_levels_def)

lemma dropWhile_same_length: "length (dropWhile P xs) = length xs \<Longrightarrow> dropWhile P xs = xs"
  by (metis append_self_conv2 length_0_conv length_append add_cancel_right_left
      takeWhile_dropWhile_id add.commute)

lemma strip_fixed_dropWhile:
  assumes "strip s = s" shows "dropWhile isspace s = s"
proof -
  have "length (strip s) \<le> length (dropWhile isspace s)"
    unfolding strip_def length_rev
    by (metis length_dropWhile_le length_rev)
  with assms have "length s \<le> length (dropWhile isspace s)" by simp
  with length_dropWhile_le[of isspace s] have "length (dropWhile isspace s) = length s" by simp
  then show ?thesis by (rule dropWhile_same_length)
qed

lemma no_groups_message:
  assumes ts: "group_timestamp_str (log_pattern_match line) = None"
      and lv: "group_level (log_pattern_match line) = None"
      and st: "strip line = line"
      and nl: "CHR 0x0A \<notin> set line"
  shows "group_message (log_pattern_match line) = line"
proof -
  have t: "timestamp_re line = None"
    using ts by (cases "timestamp_re line")
      (simp_all add: log_pattern_match_def Let_def split: prod.splits option.splits)
  have d: "dropWhile isspace line = line" using st by (rule strip_fixed_dropWhile)
  have l: "level_re line = None"
    using lv t d
    by (cases "level_re line")
      (simp_all add: log_pattern_match_def Let_def split: prod.splits option.splits)
  have "group_message (log_pattern_match line) = takeWhile (\<lambda>c. c \<noteq> CHR 0x0A) line"
    using t d l by (simp add: log_pattern_match_def Let_def)
  also have "\<dots> = line" using nl by (auto simp: takeWhile_eq_all_conv)
  finally show ?thesis .
qed

section \<open>A file of identical error lines\<close>

lemma splitlines_from_ERROR:
  "splitlines_from [] (''ERROR\<newline>'' @ rest) = ''ERROR'' # splitlines_from [] rest"
  by (simp add: is_linebreak_def)

lemma splitlines_replicate_ERROR:
  "splitlines (concat (replicate n ''ERROR\<newline>'')) = replicate n ''ERROR''"
proof (induction n)
  case 0
  show ?case by (simp add: splitlines_def)
next
  case (Suc n)
  have "splitlines (concat (replicate (Suc n) ''ERROR\<newline>'')) =
      splitlines_from [] (''ERROR\<newline>'' @ concat (replicate n ''ERROR\<newline>''))"
    by (simp add: splitlines_def)
  also have "\<dots> = ''ERROR'' # splitlines (concat (replicate n ''ERROR\<newline>''))"
    unfolding splitlines_def by (rule splitlines_from_ERROR)
  finally show ?case using Suc by simp
qed

lemma strip_ERROR: "strip ''ERROR'' = ''ERROR''"
  by code_simp

lemma level_ERROR: "level (parsed_entry_of ''ERROR'') = ''ERROR''"
  by code_simp

lemma df_logs_replicate_ERROR:
  "filter (\<lambda>r. level r \<in> set elevated_levels)
     (df_logs (parse_log_data p (concat (replicate n ''ERROR\<newline>'')) N)) =
   df_logs (parse_log_data p (concat (replicate n ''ERROR\<newline>'')) N) \<and>
   length (df_logs (parse_log_data p (concat (replicate n ''ERROR\<newline>'')) N)) = n"
  by (simp add: df_logs_eq splitlines_replicate_ERROR strip_ERROR level_ERROR elevated_levels_def)

section \<open>The claims\<close>

text \<open>
  C1. A line whose structured match gives CRITICAL or FATAL should keep that level through
  the keyword override. On the line \<^verbatim>\<open>CRITICAL disk warning\<close> the pattern assigns CRITICAL,
  the first branch of the override is closed by its guard, and the second branch, which
  guards only against WARN and WARNING, sets the level to WARN.
\<close>

theorem C1_critical_demoted:
  "fst (snd (structured_match ''CRITICAL disk warning'')) = ''CRITICAL'' \<and>
   fst (snd (classify_line ''CRITICAL disk warning'')) = ''WARN''"
  by code_simp

text \<open>
  C2. A line that starts with the token WARNING should get the level WARNING and the text
  after the token as its message. The alternation of the pattern tries WARN before WARNING,
  so on \<^verbatim>\<open>WARNING Disk low\<close> the level group is WARN and the message starts with the rest
  of the token.
\<close>

theorem C2_warning_token:
  "classify_line ''WARNING Disk low'' = (None, ''WARN'', ''ING Disk low'')"
  by code_simp

text \<open>
  C3. If the upper-cased line contains ERROR and the level of the structured match is not
  ERROR, CRITICAL or FATAL, the final level is ERROR. In particular a line that contains
  \<^verbatim>\<open>error\<close> and whose structured level is INFO ends as ERROR.
\<close>

theorem C3_error_keyword_promotes:
  "(str_in ''ERROR'' (upper line)
      \<and> fst (snd (structured_match line)) \<notin> set [''ERROR'', ''CRITICAL'', ''FATAL'']
      \<longrightarrow> fst (snd (classify_line line)) = ''ERROR'') \<and>
   (str_in ''error'' line \<and> fst (snd (structured_match line)) = ''INFO''
      \<longrightarrow> fst (snd (classify_line line)) = ''ERROR'')"
proof -
  have a: "fst (snd (classify_line line)) = ''ERROR''"
    if "str_in ''ERROR'' (upper line)"
      and "fst (snd (structured_match line)) \<notin> set [''ERROR'', ''CRITICAL'', ''FATAL'']"
    using that by (simp add: classify_line_level keyword_override_def)
  have b: "fst (snd (classify_line line)) = ''ERROR''"
    if "str_in ''error'' line" and "fst (snd (structured_match line)) = ''INFO''"
  proof -
    from that(1) have "str_in ''ERROR'' (upper line)"
      using str_in_upper[of "''error''" line] by (simp only: upper_error)
    with that(2) show ?thesis by (intro a) simp_all
  qed
  from a b show ?thesis by blast
qed

theorem C3_error_keyword_promotes_witness:
  "str_in ''ERROR'' (upper ''INFO handled Error'')
   \<and> fst (snd (structured_match ''INFO handled Error'')) = ''INFO''
   \<and> fst (snd (classify_line ''INFO handled Error'')) = ''ERROR''"
proof -
  have h1: "str_in ''ERROR'' (upper ''INFO handled Error'')" by code_simp
  have h2: "fst (snd (structured_match ''INFO handled Error'')) = ''INFO''" by code_simp
  from h1 h2 C3_error_keyword_promotes[of "''INFO handled Error''"] show ?thesis by simp
qed

text \<open>
  C4. For every input text and every cap \<open>N\<close>, the elevated lines are the raw lines of the
  events whose level is ERROR, WARN, WARNING, CRITICAL or FATAL, in input order, cut after
  the first \<open>N\<close> of them; their number is the smaller of \<open>N\<close> and the number of such
  events. With 250 such events and the cap 200 there are 200 elevated lines.
\<close>

theorem C4_elevated_cap:
  "error_warning_raw_lines (parse_log_data p text N) =
     take (nat N) (map raw_line
       (filter (\<lambda>r. level r \<in> set elevated_levels) (df_logs (parse_log_data p text N)))) \<and>
   length (error_warning_raw_lines (parse_log_data p text N)) =
     min (nat N) (length
       (filter (\<lambda>r. level r \<in> set elevated_levels) (df_logs (parse_log_data p text N)))) \<and>
   (length (filter (\<lambda>r. level r \<in> set elevated_levels)
             (df_logs (parse_log_data p text 200))) = 250
      \<longrightarrow> length (error_warning_raw_lines (parse_log_data p text 200)) = 200)"
  using elevated_eq[of p "text" N] elevated_cap_250_200[of p "text"] by (simp add: min.commute)

theorem C4_elevated_cap_witness:
  "error_warning_raw_lines (parse_log_data pandas_strptime
     (''ERROR a'' @ [CHR 0x0A] @ ''INFO b'' @ [CHR 0x0A] @ ''warn c'' @ [CHR 0x0A] @ ''FATAL d'') 2)
     = [''ERROR a'', ''warn c''] \<and>
   length (filter (\<lambda>r. level r \<in> set elevated_levels)
     (df_logs (parse_log_data pandas_strptime (concat (replicate 250 ''ERROR\<newline>'')) 200)))
     = 250 \<and>
   length (error_warning_raw_lines
     (parse_log_data pandas_strptime (concat (replicate 250 ''ERROR\<newline>'')) 200)) = 200"
proof -
  have e: "take (nat 2) (map raw_line
       (filter (\<lambda>r. level r \<in> set elevated_levels)
         (df_logs (parse_log_data pandas_strptime
            (''ERROR a'' @ [CHR 0x0A] @ ''INFO b'' @ [CHR 0x0A] @ ''warn c'' @ [CHR 0x0A]
               @ ''FATAL d'') 2))))
     = [''ERROR a'', ''warn c'']"
    by code_simp
  from C4_elevated_cap[of pandas_strptime
      "''ERROR a'' @ [CHR 0x0A] @ ''INFO b'' @ [CHR 0x0A] @ ''warn c'' @ [CHR 0x0A] @ ''FATAL d''" 2]
  have small: "error_warning_raw_lines (parse_log_data pandas_strptime
     (''ERROR a'' @ [CHR 0x0A] @ ''INFO b'' @ [CHR 0x0A] @ ''warn c'' @ [CHR 0x0A] @ ''FATAL d'') 2)
     = [''ERROR a'', ''warn c'']"
    by (simp only: e)
  have h: "length (filter (\<lambda>r. level r \<in> set elevated_levels)
     (df_logs (parse_log_data pandas_strptime (concat (replicate 250 ''ERROR\<newline>'')) 200)))
     = 250"
    using df_logs_replicate_ERROR[of pandas_strptime 250 200] by simp
  with C4_elevated_cap[of pandas_strptime "concat (replicate 250 ''ERROR\<newline>'')" 200]
  have "length (error_warning_raw_lines
     (parse_log_data pandas_strptime (concat (replicate 250 ''ERROR\<newline>'')) 200)) = 200"
    by blast
  with small h show ?thesis by blast
qed

text \<open>
  C5. The raw lines of the events are the trimmed input lines that are not empty, in input
  order: one event for each non-blank line and none for a blank one. The number of events
  is the number of non-blank input lines, and no raw line is empty.
\<close>

theorem C5_one_event_per_nonblank_line:
  "map raw_line (df_logs (parse_log_data p text N)) =
     filter (\<lambda>l. l \<noteq> []) (map strip (splitlines text)) \<and>
   length (df_logs (parse_log_data p text N)) =
     length (filter (\<lambda>l. strip l \<noteq> []) (splitlines text)) \<and>
   (\<forall>r \<in> set (df_logs (parse_log_data p text N)). raw_line r \<noteq> [])"
proof (intro conjI)
  show a: "map raw_line (df_logs (parse_log_data p text N)) =
     filter (\<lambda>l. l \<noteq> []) (map strip (splitlines text))" by (rule df_logs_raw_line)
  have "length (df_logs (parse_log_data p text N)) =
      length (map raw_line (df_logs (parse_log_data p text N)))" by simp
  also have "\<dots> = length (filter (\<lambda>l. strip l \<noteq> []) (splitlines text))"
    unfolding a by (simp add: filter_map comp_def)
  finally show "length (df_logs (parse_log_data p text N)) =
     length (filter (\<lambda>l. strip l \<noteq> []) (splitlines text))" .
  have "set (map raw_line (df_logs (parse_log_data p text N))) \<subseteq> {l. l \<noteq> []}"
    unfolding a by auto
  then show "\<forall>r \<in> set (df_logs (parse_log_data p text N)). raw_line r \<noteq> []"
    by auto
qed

theorem C5_one_event_per_nonblank_line_witness:
  "map raw_line (df_logs (parse_log_data pandas_strptime
     (''  INFO a  '' @ [CHR 0x0D, CHR 0x0A] @ ''   '' @ [CHR 0x0A, CHR 0x0A] @ ''oops'') 200))
     = [''INFO a'', ''oops''] \<and>
   length (df_logs (parse_log_data pandas_strptime
     (''  INFO a  '' @ [CHR 0x0D, CHR 0x0A] @ ''   '' @ [CHR 0x0A, CHR 0x0A] @ ''oops'') 200)) = 2 \<and>
   raw_line (hd (df_logs (parse_log_data pandas_strptime
     (''  INFO a  '' @ [CHR 0x0D, CHR 0x0A] @ ''   '' @ [CHR 0x0A, CHR 0x0A] @ ''oops'') 200))) \<noteq> []"
proof -
  define t where "t = ''  INFO a  '' @ [CHR 0x0D, CHR 0x0A] @ ''   '' @ [CHR 0x0A, CHR 0x0A] @ ''oops''"
  have e1: "filter (\<lambda>l. l \<noteq> []) (map strip (splitlines t)) = [''INFO a'', ''oops'']"
    unfolding t_def by code_simp
  have e2: "length (filter (\<lambda>l. strip l \<noteq> []) (splitlines t)) = 2"
    unfolding t_def by code_simp
  note c = C5_one_event_per_nonblank_line[of pandas_strptime t 200]
  from c e2 have "df_logs (parse_log_data pandas_strptime t 200) \<noteq> []" by auto
  then have "hd (df_logs (parse_log_data pandas_strptime t 200))
      \<in> set (df_logs (parse_log_data pandas_strptime t 200))" by (rule hd_in_set)
  with c e1 e2 show ?thesis unfolding t_def by simp
qed

text \<open>
  C6. In every row, an absent timestamp string gives an absent timestamp; a present one is
  parsed with the millisecond format first and, only where that fails, with the second
  format; where both fail the timestamp is absent. The function is total: nothing is raised.
\<close>

theorem C6_timestamp_coercion:
  "\<forall>r \<in> set (df_logs (parse_log_data p text N)).
     timestamp r =
       (case timestamp_str r of
          None \<Rightarrow> None
        | Some s \<Rightarrow> (case p ''%Y-%m-%d %H:%M:%S,%f'' s of
                      Some t \<Rightarrow> Some t
                    | None \<Rightarrow> p ''%Y-%m-%d %H:%M:%S'' s))"
  unfolding df_logs_eq by simp

theorem C6_timestamp_coercion_witness:
  "df_logs (parse_log_data pandas_strptime
      (''2024-06-25 10:00:22 INFO a'' @ [CHR 0x0A] @ ''no timestamp'') 200) \<noteq> [] \<and>
   timestamp (hd (df_logs (parse_log_data pandas_strptime
      (''2024-06-25 10:00:22 INFO a'' @ [CHR 0x0A] @ ''no timestamp'') 200))) =
     Some \<lparr> year = 2024, month = 6, day = 25, hour = 10, minute = 0, second = 22,
       microsecond = 0, nanosecond = 0 \<rparr> \<and>
   timestamp (last (df_logs (parse_log_data pandas_strptime
      (''2024-06-25 10:00:22 INFO a'' @ [CHR 0x0A] @ ''no timestamp'') 200))) = None"
proof -
  define d where "d = df_logs (parse_log_data pandas_strptime
      (''2024-06-25 10:00:22 INFO a'' @ [CHR 0x0A] @ ''no timestamp'') 200)"
  have ne: "d \<noteq> []" unfolding d_def by code_simp
  have s1: "timestamp_str (hd d) = Some ''2024-06-25 10:00:22''" unfolding d_def by code_simp
  have s2: "timestamp_str (last d) = None" unfolding d_def by code_simp
  have p1: "pandas_strptime ''%Y-%m-%d %H:%M:%S,%f'' ''2024-06-25 10:00:22'' = None"
    by code_simp
  have p2: "pandas_strptime ''%Y-%m-%d %H:%M:%S'' ''2024-06-25 10:00:22'' =
     Some \<lparr> year = 2024, month = 6, day = 25, hour = 10, minute = 0, second = 22,
       microsecond = 0, nanosecond = 0 \<rparr>"
    by code_simp
  from ne have "hd d \<in> set d" "last d \<in> set d" by simp_all
  with C6_timestamp_coercion[of pandas_strptime
      "''2024-06-25 10:00:22 INFO a'' @ [CHR 0x0A] @ ''no timestamp''" 200]
  have "timestamp (hd d) = (case timestamp_str (hd d) of None \<Rightarrow> None
          | Some s \<Rightarrow> (case pandas_strptime ''%Y-%m-%d %H:%M:%S,%f'' s of
                      Some t \<Rightarrow> Some t
                    | None \<Rightarrow> pandas_strptime ''%Y-%m-%d %H:%M:%S'' s))"
    and "timestamp (last d) = (case timestamp_str (last d) of None \<Rightarrow> None
          | Some s \<Rightarrow> (case pandas_strptime ''%Y-%m-%d %H:%M:%S,%f'' s of
                      Some t \<Rightarrow> Some t
                    | None \<Rightarrow> pandas_strptime ''%Y-%m-%d %H:%M:%S'' s))"
    unfolding d_def by blast+
  with ne show ?thesis unfolding d_def[symmetric] by (simp add: s1 s2 p1 p2)
qed

text \<open>
  C7. The single line \<^verbatim>\<open>2024-06-25 10:00:22,333 ERROR Database connection failed\<close> gives
  one event with that timestamp string, the level ERROR, the message
  \<^verbatim>\<open>Database connection failed\<close> and the timestamp 25 June 2024, 10:00:22.333.
\<close>

theorem C7_round_trip:
  "parse_log_data pandas_strptime
     ''2024-06-25 10:00:22,333 ERROR Database connection failed'' 200 =
   \<lparr> df_logs =
       [\<lparr> timestamp_str = Some ''2024-06-25 10:00:22,333'', level = ''ERROR'',
          message = ''Database connection failed'',
          raw_line = ''2024-06-25 10:00:22,333 ERROR Database connection failed'',
          timestamp = Some \<lparr> year = 2024, month = 6, day = 25, hour = 10, minute = 0,
            second = 22, microsecond = 333000, nanosecond = 0 \<rparr> \<rparr>],
     error_warning_raw_lines =
       [''2024-06-25 10:00:22,333 ERROR Database connection failed''] \<rparr>"
  by code_simp

text \<open>
  C8. When the file decodes to a text whose elevated-line collection is empty, the pipeline
  returns the "no significant findings" text with the success flag set and no error
  message, and the list of summarizer calls is empty. An empty file is such a text: it has
  no events and no elevated lines.
\<close>

theorem C8_no_findings:
  "(read_decode file = Decoded text
      \<and> error_warning_raw_lines (parse_log_data (strptime ext) text 200) = []
      \<longrightarrow> process_logs_and_summarize ext (Some file) fmt =
           (\<lparr> summary_text = no_findings, download_link = None, success = True,
              error_message = None,
              df = Some (df_logs (parse_log_data (strptime ext) text 200)) \<rparr>, [])) \<and>
   (read_decode file = Decoded []
      \<longrightarrow> process_logs_and_summarize ext (Some file) fmt =
           (\<lparr> summary_text = no_findings, download_link = None, success = True,
              error_message = None, df = Some [] \<rparr>, []))"
proof (intro conjI impI)
  assume "read_decode file = Decoded text
      \<and> error_warning_raw_lines (parse_log_data (strptime ext) text 200) = []"
  then show "process_logs_and_summarize ext (Some file) fmt =
           (\<lparr> summary_text = no_findings, download_link = None, success = True,
              error_message = None,
              df = Some (df_logs (parse_log_data (strptime ext) text 200)) \<rparr>, [])"
    by (simp add: process_logs_and_summarize_def Let_def)
next
  have e: "parse_log_data (strptime ext) [] 200 = \<lparr> df_logs = [], error_warning_raw_lines = [] \<rparr>"
    by (simp add: parse_log_data_def splitlines_def parse_lines_def timestamp_column_def)
  assume "read_decode file = Decoded []"
  then show "process_logs_and_summarize ext (Some file) fmt =
           (\<lparr> summary_text = no_findings, download_link = None, success = True,
              error_message = None, df = Some [] \<rparr>, [])"
    by (simp add: process_logs_and_summarize_def Let_def e)
qed

theorem C8_no_findings_witness:
  "read_decode \<lparr> name = ''app.log'', read_decode = Decoded ''INFO service started'' \<rparr>
     = Decoded ''INFO service started''
   \<and> error_warning_raw_lines (parse_log_data pandas_strptime ''INFO service started'' 200) = []
   \<and> process_logs_and_summarize
        \<lparr> strptime = pandas_strptime, generate_log_summary = (\<lambda>s. Inr ''summary''),
          b64encode = (\<lambda>s. s), markdown = (\<lambda>s. s), html_page = (\<lambda>n s. s) \<rparr>
        (Some \<lparr> name = ''app.log'', read_decode = Decoded ''INFO service started'' \<rparr>)
        ''markdown'' =
      (\<lparr> summary_text = no_findings, download_link = None, success = True,
         error_message = None,
         df = Some (df_logs (parse_log_data pandas_strptime ''INFO service started'' 200)) \<rparr>,
       [])
   \<and> read_decode \<lparr> name = ''empty.log'', read_decode = Decoded [] \<rparr> = Decoded []
   \<and> process_logs_and_summarize
        \<lparr> strptime = pandas_strptime, generate_log_summary = (\<lambda>s. Inr ''summary''),
          b64encode = (\<lambda>s. s), markdown = (\<lambda>s. s), html_page = (\<lambda>n s. s) \<rparr>
        (Some \<lparr> name = ''empty.log'', read_decode = Decoded [] \<rparr>) ''html'' =
      (\<lparr> summary_text = no_findings, download_link = None, success = True,
         error_message = None, df = Some [] \<rparr>, [])"
proof -
  have h: "error_warning_raw_lines (parse_log_data pandas_strptime ''INFO service started'' 200) = []"
    by code_simp
  with C8_no_findings[of "\<lparr> name = ''app.log'', read_decode = Decoded ''INFO service started'' \<rparr>"
      "''INFO service started''"
      "\<lparr> strptime = pandas_strptime, generate_log_summary = (\<lambda>s. Inr ''summary''),
          b64encode = (\<lambda>s. s), markdown = (\<lambda>s. s), html_page = (\<lambda>n s. s) \<rparr>"
      "''markdown''"]
    C8_no_findings[of "\<lparr> name = ''empty.log'', read_decode = Decoded [] \<rparr>" "[]"
      "\<lparr> strptime = pandas_strptime, generate_log_summary = (\<lambda>s. Inr ''summary''),
          b64encode = (\<lambda>s. s), markdown = (\<lambda>s. s), html_page = (\<lambda>n s. s) \<rparr>"
      "''html''"]
  show ?thesis by simp
qed

text \<open>
  C9. The classifier is a total function of the line: for every string it returns a triple,
  and the level of the triple is one of the seven names of \<open>severity_order\<close>, never the
  empty string. The fallback: on a trimmed line without a line feed, where the pattern finds
  neither a timestamp nor a level token and no keyword occurs, the triple is no timestamp,
  INFO and the whole line.
\<close>

theorem C9_classifier_total:
  "fst (snd (classify_line line)) \<in> set severity_order \<and>
   fst (snd (classify_line line)) \<noteq> [] \<and>
   (strip line = line \<and> CHR 0x0A \<notin> set line
      \<and> group_timestamp_str (log_pattern_match line) = None
      \<and> group_level (log_pattern_match line) = None
      \<and> \<not> str_in ''ERROR'' (upper line) \<and> \<not> str_in ''WARN'' (upper line)
      \<longrightarrow> classify_line line = (None, ''INFO'', line))"
proof (intro conjI impI)
  show "fst (snd (classify_line line)) \<in> set severity_order"
    using classify_line_levels structured_levels_severity by blast
  show "fst (snd (classify_line line)) \<noteq> []"
    using classify_line_levels structured_levels_severity by blast
next
  assume h: "strip line = line \<and> CHR 0x0A \<notin> set line
      \<and> group_timestamp_str (log_pattern_match line) = None
      \<and> group_level (log_pattern_match line) = None
      \<and> \<not> str_in ''ERROR'' (upper line) \<and> \<not> str_in ''WARN'' (upper line)"
  then have m: "group_message (log_pattern_match line) = line"
    by (intro no_groups_message) simp_all
  have w: "\<not> str_in ''WARNING'' (upper line)"
  proof
    assume "str_in ''WARNING'' (upper line)"
    then obtain ps ss where "upper line = ps @ ''WARNING'' @ ss"
      by (auto simp: str_in_sublist sublist_def)
    then have "upper line = ps @ ''WARN'' @ (''ING'' @ ss)" by simp
    then have "str_in ''WARN'' (upper line)" unfolding str_in_sublist sublist_def by blast
    with h show False by simp
  qed
  from h m have "structured_match line = (None, ''INFO'', line)"
    by (simp add: structured_match_def Let_def truthy_def)
  with h w show "classify_line line = (None, ''INFO'', line)"
    by (simp add: classify_line_def keyword_override_def)
qed

theorem C9_classifier_total_witness:
  "strip ''Server health check passed.'' = ''Server health check passed.''
   \<and> CHR 0x0A \<notin> set ''Server health check passed.''
   \<and> group_timestamp_str (log_pattern_match ''Server health check passed.'') = None
   \<and> group_level (log_pattern_match ''Server health check passed.'') = None
   \<and> \<not> str_in ''ERROR'' (upper ''Server health check passed.'')
   \<and> \<not> str_in ''WARN'' (upper ''Server health check passed.'')
   \<and> classify_line ''Server health check passed.'' =
       (None, ''INFO'', ''Server health check passed.'')"
proof -
  have h: "strip ''Server health check passed.'' = ''Server health check passed.''
   \<and> CHR 0x0A \<notin> set ''Server health check passed.''
   \<and> group_timestamp_str (log_pattern_match ''Server health check passed.'') = None
   \<and> group_level (log_pattern_match ''Server health check passed.'') = None
   \<and> \<not> str_in ''ERROR'' (upper ''Server health check passed.'')
   \<and> \<not> str_in ''WARN'' (upper ''Server health check passed.'')"
    by code_simp
  with C9_classifier_total[of "''Server health check passed.''"] show ?thesis by blast
qed

text \<open>
  C10. No line is classified as WARNING: the alternation of the pattern yields WARN on a
  leading WARNING token, and the keyword override assigns only ERROR or WARN. So no row of
  the data frame carries the level WARNING either.
\<close>

theorem C10_warning_unreachable:
  "fst (snd (classify_line line)) \<noteq> ''WARNING'' \<and>
   (\<forall>r \<in> set (df_logs (parse_log_data p text N)). level r \<noteq> ''WARNING'')"
proof
  show "fst (snd (classify_line line)) \<noteq> ''WARNING''"
    using classify_line_levels structured_levels_not_WARNING by blast
  have "set (map level (df_logs (parse_log_data p text N))) \<subseteq> set structured_levels"
    unfolding df_logs_level using classify_line_levels by auto
  then show "\<forall>r \<in> set (df_logs (parse_log_data p text N)). level r \<noteq> ''WARNING''"
    using structured_levels_not_WARNING by fastforce
qed

theorem C10_warning_unreachable_witness:
  "df_logs (parse_log_data pandas_strptime ''WARNING Disk low'' 200) \<noteq> [] \<and>
   level (hd (df_logs (parse_log_data pandas_strptime ''WARNING Disk low'' 200))) \<noteq> ''WARNING''"
proof -
  have ne: "df_logs (parse_log_data pandas_strptime ''WARNING Disk low'' 200) \<noteq> []"
    by code_simp
  then have "hd (df_logs (parse_log_data pandas_strptime ''WARNING Disk low'' 200))
      \<in> set (df_logs (parse_log_data pandas_strptime ''WARNING Disk low'' 200))"
    by (rule hd_in_set)
  with ne C10_warning_unreachable[of "''WARNING Disk low''" pandas_strptime "''WARNING Disk low''" 200]
  show ?thesis by blast
qed

end
